theory Spec2Isabelle
  imports Main
begin

section \<open>The outline parser and slide renderer of create\_presentation.py\<close>

text \<open>
  A shallow embedding of \<open>parse_outline\<close> and \<open>generate_slide_html\<close> from
  \<open>skills/revealjs/scripts/create_presentation.py\<close>.

  A Python \<open>str\<close> is a sequence of code points; here it is a \<open>string\<close>, whose
  characters stand for the code points 0 to 255.  The string methods the script calls
  (\<open>strip\<close>, \<open>lower\<close>, \<open>startswith\<close>, \<open>split\<close>, slicing) are written out for
  that range.
\<close>

subsection \<open>String methods\<close>

text \<open>\<open>str.isspace\<close> on one character: the white-space code points below 256.\<close>

definition isspace :: "char \<Rightarrow> bool" where
  "isspace c \<longleftrightarrow>
     c \<in> set [CHR 0x09, CHR 0x0A, CHR 0x0B, CHR 0x0C, CHR 0x0D,
               CHR 0x1C, CHR 0x1D, CHR 0x1E, CHR 0x1F, CHR 0x20, CHR 0x85, CHR 0xA0]"

text \<open>\<open>s.strip()\<close>: white space removed at both ends.\<close>

definition strip :: "string \<Rightarrow> string" where
  "strip s = rev (dropWhile isspace (rev (dropWhile isspace s)))"

text \<open>\<open>s.startswith(p)\<close>.\<close>

definition startswith :: "string \<Rightarrow> string \<Rightarrow> bool" where
  "startswith s p \<longleftrightarrow> take (length p) s = p"

text \<open>
  \<open>s.lower()\<close>, character by character: the letters A to Z and the upper-case letters
  of the range 0xC0 to 0xDE (all but the multiplication sign 0xD7) move up by 32.
\<close>

definition lower_char :: "char \<Rightarrow> char" where
  "lower_char c =
     (let n = (of_char c :: nat) in
      if (65 \<le> n \<and> n \<le> 90) \<or> (192 \<le> n \<and> n \<le> 222 \<and> n \<noteq> 215)
      then char_of (n + 32) else c)"

definition lower :: "string \<Rightarrow> string" where
  "lower s = map lower_char s"

text \<open>\<open>text.split('\n')\<close>: the pieces between line feeds, at least one piece.\<close>

fun split_nl :: "string \<Rightarrow> string list" where
  "split_nl [] = [[]]"
| "split_nl (c # cs) =
     (if c = CHR 0x0A then [] # split_nl cs
      else (case split_nl cs of [] \<Rightarrow> [[c]] | l # ls \<Rightarrow> (c # l) # ls))"

text \<open>\<open>line.split(':', 1)\<close> on a line that holds a colon: the text before the first
  colon and the text after it.\<close>

definition split_colon :: "string \<Rightarrow> string \<times> string" where
  "split_colon line =
     (takeWhile (\<lambda>c. c \<noteq> CHR '':'') line, drop 1 (dropWhile (\<lambda>c. c \<noteq> CHR '':'') line))"

subsection \<open>Slides and the parser state\<close>

text \<open>
  A slide is the dictionary with the keys \<open>type\<close>, \<open>title\<close>, \<open>content\<close> and
  \<open>metadata\<close>; the metadata dictionary is a map from strings to strings.
\<close>

record slide =
  slide_type :: string
  title :: string
  content :: "string list"
  metadata :: "string \<rightharpoonup> string"

text \<open>The local variables of \<open>parse_outline\<close> that live across the loop.\<close>

record pstate =
  slides :: "slide list"
  current_slide :: "slide option"
  in_code_block :: bool
  code_lang :: "string option"

definition init_state :: pstate where
  "init_state = \<lparr>slides = [], current_slide = None, in_code_block = False, code_lang = None\<rparr>"

text \<open>\<open>current_slide['content'].append(frag)\<close>, done only under
  \<open>if current_slide\<close>.\<close>

definition append_content :: "string \<Rightarrow> pstate \<Rightarrow> pstate" where
  "append_content frag st =
     (case current_slide st of
        None \<Rightarrow> st
      | Some s \<Rightarrow> st\<lparr>current_slide := Some (s\<lparr>content := content s @ [frag]\<rparr>)\<rparr>)"

text \<open>
  The backward scan over the body, shared by the bullet branch and the closing branch:
  from the last fragment down, \<open><ul>\<close> answers yes, \<open></ul>\<close> answers no, running
  out of fragments answers no.  \<open>scan_back\<close> takes the body reversed.
\<close>

fun scan_back :: "string list \<Rightarrow> bool" where
  "scan_back [] = False"
| "scan_back (f # fs) =
     (if f = ''<ul>'' then True else if f = ''</ul>'' then False else scan_back fs)"

definition has_open_list :: "string list \<Rightarrow> bool" where
  "has_open_list body = scan_back (rev body)"

definition is_fence :: "string \<Rightarrow> bool" where
  "is_fence line \<longleftrightarrow> startswith (strip line) ''```''"

text \<open>The body of the loop, one line at a time, branch by branch.\<close>

definition process_line :: "pstate \<Rightarrow> string \<Rightarrow> pstate" where
  "process_line st line =
     (if is_fence line then
        (if \<not> in_code_block st then
           (let t = strip (drop 3 (strip line));
                lang = (if t = [] then ''text'' else t)
            in append_content (''<pre><code class=\"'' @ lang @ ''\" data-trim>'')
                 (st\<lparr>in_code_block := True, code_lang := Some lang\<rparr>))
         else
           (append_content ''</code></pre>'' (st\<lparr>in_code_block := False\<rparr>))
             \<lparr>code_lang := None\<rparr>)
      else if in_code_block st then append_content line st
      else if startswith line ''# '' then
        (let slide_title = strip (drop 2 line)
         in st\<lparr>slides := (case current_slide st of
                             None \<Rightarrow> slides st
                           | Some s \<Rightarrow> slides st @ [s]),
                current_slide := Some
                  \<lparr>slide_type = (if lower slide_title = ''title slide''
                                 then ''title'' else ''content''),
                   title = slide_title, content = [], metadata = Map.empty\<rparr>\<rparr>)
      else if startswith line ''## '' then
        append_content (''<h2>'' @ strip (drop 3 line) @ ''</h2>'') st
      else if CHR '':'' \<in> set line \<and> \<not> startswith (strip line) ''-'' then
        (let key = strip (fst (split_colon line));
             val = strip (snd (split_colon line))
         in case current_slide st of
              None \<Rightarrow> st
            | Some s \<Rightarrow>
                if key \<in> set [''Title'', ''Subtitle'', ''Author'', ''Date'']
                then st\<lparr>current_slide := Some (s\<lparr>metadata := (metadata s)(lower key \<mapsto> val)\<rparr>)\<rparr>
                else st)
      else if startswith (strip line) ''-'' then
        (case current_slide st of
           None \<Rightarrow> st
         | Some s \<Rightarrow>
             (let needs_ul = \<not> has_open_list (content s);
                  st1 = (if needs_ul then append_content ''<ul>'' st else st)
              in append_content (''  <li>'' @ strip (drop 1 (strip line)) @ ''</li>'') st1))
      else if (case current_slide st of None \<Rightarrow> False | Some s \<Rightarrow> content s \<noteq> []) then
        (let open_list = (case current_slide st of
                            None \<Rightarrow> False
                          | Some s \<Rightarrow> has_open_list (content s))
         in if open_list \<and> strip line \<noteq> [] then
              append_content (''<p>'' @ strip line @ ''</p>'') (append_content ''</ul>'' st)
            else if strip line \<noteq> [] then
              append_content (''<p>'' @ strip line @ ''</p>'') st
            else st)
      else if strip line \<noteq> [] then
        append_content (''<p>'' @ strip line @ ''</p>'') st
      else st)"

text \<open>After the loop: the slide under construction, if any, is closed and committed.\<close>

definition finalize :: "pstate \<Rightarrow> slide list" where
  "finalize st =
     (case current_slide st of
        None \<Rightarrow> slides st
      | Some s \<Rightarrow>
          (if content s \<noteq> [] \<and> startswith (last (content s)) ''  <li>''
           then slides st @ [s\<lparr>content := content s @ [''</ul>'']\<rparr>]
           else slides st @ [s]))"

definition parse_lines :: "string list \<Rightarrow> slide list" where
  "parse_lines ls = finalize (foldl process_line init_state ls)"

definition parse_outline :: "string \<Rightarrow> slide list" where
  "parse_outline text = parse_lines (split_nl text)"

subsection \<open>The renderer\<close>

text \<open>\<open>d.get(k, default)\<close>.\<close>

definition dict_get :: "(string \<rightharpoonup> string) \<Rightarrow> string \<Rightarrow> string \<Rightarrow> string" where
  "dict_get d k dflt = (case d k of None \<Rightarrow> dflt | Some v \<Rightarrow> v)"

text \<open>
  \<open>generate_slide_html\<close>: the string \<open>html\<close> grows statement by statement; a Python
  string is true when it is not empty.
\<close>

definition generate_slide_html :: "slide \<Rightarrow> string" where
  "generate_slide_html slide =
     (if slide_type slide = ''title'' then
        (let title_v = dict_get (metadata slide) ''title'' ''Presentation Title'';
             subtitle = dict_get (metadata slide) ''subtitle'' [];
             author = dict_get (metadata slide) ''author'' [];
             date = dict_get (metadata slide) ''date'' [];
             html = ''      <section>\<newline>'';
             html = html @ ''        <h1>'' @ title_v @ ''</h1>\<newline>'';
             html = (if subtitle \<noteq> [] then html @ ''        <h3>'' @ subtitle @ ''</h3>\<newline>''
                     else html);
             html = (if author \<noteq> [] \<or> date \<noteq> [] then
                       (let html = html @ ''        <p>\<newline>'';
                            html = (if author \<noteq> []
                                    then html @ ''          <small>'' @ author @ ''</small><br>\<newline>''
                                    else html);
                            html = (if date \<noteq> []
                                    then html @ ''          <small>'' @ date @ ''</small>\<newline>''
                                    else html)
                        in html @ ''        </p>\<newline>'')
                     else html)
         in html @ ''      </section>\<newline>'')
      else
        (let html = ''      <section>\<newline>'';
             html = foldl (\<lambda>html line. html @ ''        '' @ line @ ''\<newline>'') html (content slide)
         in html @ ''      </section>\<newline>''))"

subsection \<open>Notions used to state the properties\<close>

text \<open>A new-slide marker line starts with \<open>#\<close> and a space; its text is what follows,
  trimmed.\<close>

definition is_marker :: "string \<Rightarrow> bool" where
  "is_marker l \<longleftrightarrow> startswith l ''# ''"

definition marker_text :: "string \<Rightarrow> string" where
  "marker_text l = strip (drop 2 l)"

text \<open>
  The new-slide marker lines that lie outside fenced blocks, in order; \<open>b\<close> tells whether
  a fenced block is open before the first line.  This scan follows the fence delimiters
  only.
\<close>

fun slide_marker_lines :: "bool \<Rightarrow> string list \<Rightarrow> string list" where
  "slide_marker_lines b [] = []"
| "slide_marker_lines b (l # ls) =
     (if is_fence l then slide_marker_lines (\<not> b) ls
      else if \<not> b \<and> is_marker l then l # slide_marker_lines b ls
      else slide_marker_lines b ls)"

text \<open>The headings held by a parser state: the committed slides, then the slide under
  construction.\<close>

definition headings_of :: "pstate \<Rightarrow> string list" where
  "headings_of st =
     map title (slides st) @ (case current_slide st of None \<Rightarrow> [] | Some s \<Rightarrow> [title s])"

text \<open>A metadata entry is given when the key is present with a non-empty value.\<close>

definition given :: "(string \<rightharpoonup> string) \<Rightarrow> string \<Rightarrow> bool" where
  "given d k \<longleftrightarrow> (case d k of None \<Rightarrow> False | Some v \<Rightarrow> v \<noteq> [])"

text \<open>The pieces of a rendered title slide: the heading, the sub-heading, and the byline
  block with its author line and its date line.\<close>

definition title_heading :: "slide \<Rightarrow> string" where
  "title_heading s =
     ''        <h1>'' @ (case metadata s ''title'' of None \<Rightarrow> ''Presentation Title'' | Some t \<Rightarrow> t)
       @ ''</h1>\<newline>''"

definition title_subheading :: "slide \<Rightarrow> string" where
  "title_subheading s =
     (if given (metadata s) ''subtitle''
      then ''        <h3>'' @ dict_get (metadata s) ''subtitle'' [] @ ''</h3>\<newline>'' else [])"

definition author_line :: "slide \<Rightarrow> string" where
  "author_line s =
     (if given (metadata s) ''author''
      then ''          <small>'' @ dict_get (metadata s) ''author'' [] @ ''</small><br>\<newline>'' else [])"

definition date_line :: "slide \<Rightarrow> string" where
  "date_line s =
     (if given (metadata s) ''date''
      then ''          <small>'' @ dict_get (metadata s) ''date'' [] @ ''</small>\<newline>'' else [])"

definition title_byline :: "slide \<Rightarrow> string" where
  "title_byline s =
     (if given (metadata s) ''author'' \<or> given (metadata s) ''date''
      then ''        <p>\<newline>'' @ author_line s @ date_line s @ ''        </p>\<newline>'' else [])"

text \<open>A line that the metadata branch stores: it holds a colon and the trimmed text before
  the first colon is one of the four keys, spelt as the script spells them.\<close>

definition recognised :: "string \<Rightarrow> bool" where
  "recognised l \<longleftrightarrow>
     CHR '':'' \<in> set l \<and> strip (fst (split_colon l)) \<in> set [''Title'', ''Subtitle'', ''Author'', ''Date'']"

text \<open>All slides of a state, committed or under construction.\<close>

definition all_slides :: "pstate \<Rightarrow> slide set" where
  "all_slides st = set (slides st) \<union> set_option (current_slide st)"

text \<open>
  The lines of a text that lie outside fenced blocks, fence delimiters left out; \<open>b\<close> tells
  whether a fenced block is open before the first line.
\<close>

fun outside_fences :: "bool \<Rightarrow> string list \<Rightarrow> string list" where
  "outside_fences b [] = []"
| "outside_fences b (l # ls) =
     (if is_fence l then outside_fences (\<not> b) ls
      else if b then outside_fences b ls
      else l # outside_fences b ls)"

text \<open>The block of each new-slide marker line: the lines after it, up to the next marker
  line.\<close>

fun slide_blocks :: "string list \<Rightarrow> string list list" where
  "slide_blocks [] = []"
| "slide_blocks (l # ls) =
     (if is_marker l then takeWhile (\<lambda>x. \<not> is_marker x) ls # slide_blocks ls
      else slide_blocks ls)"

text \<open>What one line does to a metadata map, and what the lines of a block do to the empty
  map, the last write winning.\<close>

definition store_line :: "(string \<rightharpoonup> string) \<Rightarrow> string \<Rightarrow> (string \<rightharpoonup> string)" where
  "store_line m l =
     (if recognised l
      then m(lower (strip (fst (split_colon l))) \<mapsto> strip (snd (split_colon l)))
      else m)"

definition block_metadata :: "string list \<Rightarrow> (string \<rightharpoonup> string)" where
  "block_metadata blk = foldl store_line Map.empty blk"

text \<open>The metadata that the slide under construction, if any, has after the lines
  \<open>blk\<close>.\<close>

definition current_metadata :: "pstate \<Rightarrow> string list \<Rightarrow> (string \<rightharpoonup> string) list" where
  "current_metadata st blk =
     (case current_slide st of None \<Rightarrow> [] | Some s \<Rightarrow> [foldl store_line (metadata s) blk])"

section \<open>Facts about the string methods\<close>

lemma isspace_simps:
  "\<not> isspace CHR ''#''" "\<not> isspace CHR '':''" "\<not> isspace CHR ''-''" "\<not> isspace (CHR 0x60)"
  "isspace CHR '' ''"
  by (simp_all add: isspace_def)

lemma strip_Cons_nonspace:
  assumes "\<not> isspace c"
  shows "strip (c # r) = c # rev (dropWhile isspace (rev r))"
proof -
  have "dropWhile isspace (rev r @ [c]) = dropWhile isspace (rev r) @ [c]"
    using assms by (simp add: dropWhile_append)
  then show ?thesis using assms by (simp add: strip_def)
qed

lemma strip_dropWhile: "strip (dropWhile isspace s) = strip s"
  by (simp add: strip_def)

lemma strip_Nil_iff: "strip s = [] \<longleftrightarrow> (\<forall>c\<in>set s. isspace c)"
proof
  assume "strip s = []"
  then have "dropWhile isspace (rev (dropWhile isspace s)) = []" by (simp add: strip_def)
  then have "\<forall>c\<in>set (dropWhile isspace s). isspace c"
    by simp
  then have "dropWhile isspace s = []"
    by (metis hd_dropWhile list.set_sel(1))
  then show "\<forall>c\<in>set s. isspace c" by simp
next
  assume "\<forall>c\<in>set s. isspace c"
  then show "strip s = []" by (auto simp: strip_def dest: set_dropWhileD)
qed

lemma strip_cases:
  obtains "strip s = []" "\<forall>c\<in>set s. isspace c"
  | c r where "\<not> isspace c" "dropWhile isspace s = c # r" "strip s = c # rev (dropWhile isspace (rev r))"
proof (cases "dropWhile isspace s")
  case Nil
  then have "\<forall>c\<in>set s. isspace c" by simp
  then show ?thesis using that(1) strip_Nil_iff by blast
next
  case (Cons c r)
  then have "\<not> isspace c" by (metis hd_dropWhile list.distinct(1) list.sel(1))
  moreover have "strip s = strip (c # r)" using Cons strip_dropWhile by metis
  ultimately show ?thesis using that(2) Cons strip_Cons_nonspace by metis
qed

lemma startswith_Cons: "startswith s (c # p) \<longleftrightarrow> (\<exists>r. s = c # r \<and> startswith r p)"
  by (cases s) (auto simp: startswith_def)

lemma startswith_Nil [simp]: "startswith s []"
  by (simp add: startswith_def)

lemma startswith_hash_strip:
  assumes "startswith l (CHR ''#'' # p)"
  shows "\<exists>r. strip l = CHR ''#'' # r"
  using assms by (auto simp: startswith_Cons strip_Cons_nonspace isspace_simps)

lemma marker_not_fence: "startswith l ''# '' \<Longrightarrow> \<not> is_fence l"
  using startswith_hash_strip[of l "'' ''"] by (auto simp: is_fence_def startswith_Cons)

lemma blank_not_fence: "strip l = [] \<Longrightarrow> \<not> is_fence l"
  by (simp add: is_fence_def startswith_def)

lemma blank_no_colon: "strip l = [] \<Longrightarrow> CHR '':'' \<notin> set l"
  using isspace_simps(2) strip_Nil_iff by blast

lemma blank_not_heading: "strip l = [] \<Longrightarrow> \<not> startswith l (CHR ''#'' # p)"
  using startswith_hash_strip by fastforce

lemma dropWhile_space_takeWhile:
  "dropWhile isspace (takeWhile (\<lambda>c. c \<noteq> CHR '':'') l)
     = takeWhile (\<lambda>c. c \<noteq> CHR '':'') (dropWhile isspace l)"
  by (induction l) (auto simp: isspace_simps)

lemma key_first_char:
  assumes "dropWhile isspace l = c # r" "c \<noteq> CHR '':''"
  shows "\<exists>r'. strip (fst (split_colon l)) = c # r'"
proof -
  have ns: "\<not> isspace c" using assms(1) by (metis hd_dropWhile list.distinct(1) list.sel(1))
  have "dropWhile isspace (fst (split_colon l)) = c # takeWhile (\<lambda>c. c \<noteq> CHR '':'') r"
    using assms by (simp add: split_colon_def dropWhile_space_takeWhile)
  then have "strip (fst (split_colon l)) = strip (c # takeWhile (\<lambda>c. c \<noteq> CHR '':'') r)"
    using strip_dropWhile by metis
  then show ?thesis using ns by (simp add: strip_Cons_nonspace)
qed

lemma key_empty:
  assumes "dropWhile isspace l = [] \<or> (\<exists>r. dropWhile isspace l = CHR '':'' # r)"
  shows "strip (fst (split_colon l)) = []"
proof -
  have "takeWhile (\<lambda>c. c \<noteq> CHR '':'') (dropWhile isspace l) = []"
    using assms by (elim disjE exE) (simp_all only: takeWhile.simps simp_thms if_False)
  then have "dropWhile isspace (fst (split_colon l)) = []"
    by (simp add: split_colon_def dropWhile_space_takeWhile)
  then show ?thesis unfolding strip_def by (simp only: rev.simps dropWhile.simps)
qed

section \<open>The loop body, branch by branch\<close>

lemma process_line_fence_open:
  "is_fence l \<Longrightarrow> \<not> in_code_block st \<Longrightarrow>
   process_line st l =
     append_content
       (''<pre><code class=\"'' @ (if strip (drop 3 (strip l)) = [] then ''text'' else strip (drop 3 (strip l)))
          @ ''\" data-trim>'')
       (st\<lparr>in_code_block := True,
           code_lang := Some (if strip (drop 3 (strip l)) = [] then ''text'' else strip (drop 3 (strip l)))\<rparr>)"
  by (simp add: process_line_def Let_def)

lemma process_line_fence_close:
  "is_fence l \<Longrightarrow> in_code_block st \<Longrightarrow>
   process_line st l = (append_content ''</code></pre>'' (st\<lparr>in_code_block := False\<rparr>))\<lparr>code_lang := None\<rparr>"
  by (simp add: process_line_def)

lemma process_line_in_code:
  "\<not> is_fence l \<Longrightarrow> in_code_block st \<Longrightarrow> process_line st l = append_content l st"
  by (simp add: process_line_def)

lemma process_line_marker:
  "\<not> in_code_block st \<Longrightarrow> startswith l ''# '' \<Longrightarrow>
   process_line st l =
     st\<lparr>slides := (case current_slide st of None \<Rightarrow> slides st | Some s \<Rightarrow> slides st @ [s]),
        current_slide := Some
          \<lparr>slide_type = (if lower (strip (drop 2 l)) = ''title slide'' then ''title'' else ''content''),
           title = strip (drop 2 l), content = [], metadata = Map.empty\<rparr>\<rparr>"
  using marker_not_fence[of l] by (simp add: process_line_def Let_def)



lemma process_line_subheading:
  "\<not> is_fence l \<Longrightarrow> \<not> in_code_block st \<Longrightarrow> \<not> startswith l ''# '' \<Longrightarrow> startswith l ''## '' \<Longrightarrow>
   process_line st l = append_content (''<h2>'' @ strip (drop 3 l) @ ''</h2>'') st"
  by (simp add: process_line_def)

lemma process_line_meta:
  "\<not> is_fence l \<Longrightarrow> \<not> in_code_block st \<Longrightarrow> \<not> startswith l ''# '' \<Longrightarrow> \<not> startswith l ''## '' \<Longrightarrow>
   CHR '':'' \<in> set l \<Longrightarrow> \<not> startswith (strip l) ''-'' \<Longrightarrow>
   process_line st l =
     (case current_slide st of
        None \<Rightarrow> st
      | Some s \<Rightarrow>
          if strip (fst (split_colon l)) \<in> set [''Title'', ''Subtitle'', ''Author'', ''Date'']
          then st\<lparr>current_slide := Some (s\<lparr>metadata := (metadata s)
                    (lower (strip (fst (split_colon l))) \<mapsto> strip (snd (split_colon l)))\<rparr>)\<rparr>
          else st)"
  by (simp add: process_line_def Let_def)

lemma process_line_bullet:
  "\<not> is_fence l \<Longrightarrow> \<not> in_code_block st \<Longrightarrow> \<not> startswith l ''# '' \<Longrightarrow> \<not> startswith l ''## '' \<Longrightarrow>
   startswith (strip l) ''-'' \<Longrightarrow>
   process_line st l =
     (case current_slide st of
        None \<Rightarrow> st
      | Some s \<Rightarrow>
          append_content (''  <li>'' @ strip (drop 1 (strip l)) @ ''</li>'')
            (if has_open_list (content s) then st else append_content ''<ul>'' st))"
  by (simp add: process_line_def Let_def split: option.splits)

lemma process_line_plain:
  assumes "\<not> is_fence l" "\<not> in_code_block st" "\<not> startswith l ''# ''" "\<not> startswith l ''## ''"
    "CHR '':'' \<notin> set l" "\<not> startswith (strip l) ''-''"
  shows "process_line st l =
     (if strip l = [] then st
      else if (case current_slide st of None \<Rightarrow> False | Some s \<Rightarrow> has_open_list (content s))
      then append_content (''<p>'' @ strip l @ ''</p>'') (append_content ''</ul>'' st)
      else append_content (''<p>'' @ strip l @ ''</p>'') st)"
proof (cases "current_slide st")
  case None
  then show ?thesis
    using assms by (simp add: process_line_def append_content_def)
next
  case (Some s)
  then show ?thesis
    using assms by (cases "content s = []") (simp_all add: process_line_def has_open_list_def)
qed


lemma line_classes:
  obtains (fence_open) "is_fence l" "\<not> in_code_block st"
  | (fence_close) "is_fence l" "in_code_block st"
  | (code) "\<not> is_fence l" "in_code_block st"
  | (marker) "\<not> is_fence l" "\<not> in_code_block st" "startswith l ''# ''"
  | (subheading) "\<not> is_fence l" "\<not> in_code_block st" "\<not> startswith l ''# ''"
      "startswith l ''## ''"
  | (meta) "\<not> is_fence l" "\<not> in_code_block st" "\<not> startswith l ''# ''"
      "\<not> startswith l ''## ''" "CHR '':'' \<in> set l" "\<not> startswith (strip l) ''-''"
  | (bullet) "\<not> is_fence l" "\<not> in_code_block st" "\<not> startswith l ''# ''"
      "\<not> startswith l ''## ''" "startswith (strip l) ''-''"
  | (plain) "\<not> is_fence l" "\<not> in_code_block st" "\<not> startswith l ''# ''"
      "\<not> startswith l ''## ''" "CHR '':'' \<notin> set l" "\<not> startswith (strip l) ''-''"
  by blast

lemma append_content_proj [simp]:
  "slides (append_content f st) = slides st"
  "in_code_block (append_content f st) = in_code_block st"
  "code_lang (append_content f st) = code_lang st"
  "current_slide (append_content f st) =
     map_option (\<lambda>s. s\<lparr>content := content s @ [f]\<rparr>) (current_slide st)"
  by (simp_all add: append_content_def split: option.splits)

lemma headings_of_append_content [simp]: "headings_of (append_content f st) = headings_of st"
  by (cases "current_slide st") (simp_all add: headings_of_def)

lemma headings_of_update [simp]:
  "headings_of (st\<lparr>in_code_block := b\<rparr>) = headings_of st"
  "headings_of (st\<lparr>code_lang := c\<rparr>) = headings_of st"
  by (simp_all add: headings_of_def)

lemma process_line_other:
  assumes "\<not> is_fence l" "\<not> in_code_block st" "\<not> startswith l ''# ''"
  shows "slides (process_line st l) = slides st \<and>
         headings_of (process_line st l) = headings_of st \<and>
         in_code_block (process_line st l) = in_code_block st \<and>
         code_lang (process_line st l) = code_lang st \<and>
         (current_slide (process_line st l) = None \<longleftrightarrow> current_slide st = None)"
proof (cases l st rule: line_classes)
  case subheading
  then show ?thesis by (simp add: process_line_subheading)
next
  case meta
  show ?thesis unfolding process_line_meta[OF meta]
    by (cases "current_slide st") (simp_all add: headings_of_def)
next
  case bullet
  show ?thesis unfolding process_line_bullet[OF bullet]
    by (cases "current_slide st") simp_all
next
  case plain
  then show ?thesis by (simp add: process_line_plain)
qed (use assms in simp_all)

lemma in_code_block_process_line:
  "in_code_block (process_line st l) = (if is_fence l then \<not> in_code_block st else in_code_block st)"
proof (cases l st rule: line_classes)
  case fence_open
  then show ?thesis by (simp add: process_line_fence_open)
next
  case fence_close
  then show ?thesis by (simp add: process_line_fence_close)
next
  case code
  then show ?thesis by (simp add: process_line_in_code)
next
  case marker
  then show ?thesis by (simp add: process_line_marker)
qed (simp_all add: process_line_other)

lemma headings_of_process_line:
  "headings_of (process_line st l) =
     headings_of st @
       (if \<not> is_fence l \<and> \<not> in_code_block st \<and> startswith l ''# ''
        then [strip (drop 2 l)] else [])"
proof (cases l st rule: line_classes)
  case fence_open
  then show ?thesis by (simp add: process_line_fence_open)
next
  case fence_close
  then show ?thesis by (simp add: process_line_fence_close)
next
  case code
  then show ?thesis by (simp add: process_line_in_code)
next
  case marker
  then show ?thesis by (simp add: process_line_marker headings_of_def split: option.splits)
qed (simp_all add: process_line_other)

lemma headings_of_foldl:
  "headings_of (foldl process_line st ls) =
     headings_of st @ map marker_text (slide_marker_lines (in_code_block st) ls)"
proof (induction ls arbitrary: st)
  case Nil
  show ?case by simp
next
  case (Cons l ls)
  show ?case
    by (simp add: Cons.IH headings_of_process_line in_code_block_process_line marker_not_fence
          is_marker_def marker_text_def)
qed

lemma titles_finalize: "map title (finalize st) = headings_of st"
  by (simp add: finalize_def headings_of_def split: option.splits)

lemma headings_of_init: "headings_of init_state = []" "in_code_block init_state = False"
  by (simp_all add: headings_of_def init_state_def)

section \<open>Number and order of the slides\<close>

text \<open>
  C1 (as stated): a text with at least one new-slide marker line gives as many slides as it
  has new-slide marker lines.  This fails when a marker line lies inside a fenced block:
  the text below has one line starting with \<open>#\<close> and a space, and no slide.
\<close>

theorem parse_length_counterexample:
  "length (filter is_marker (split_nl ''```\<newline># a'')) = 1 \<and> parse_outline ''```\<newline># a'' = []"
  by code_simp

text \<open>
  C1 (amended): \<open>parse_outline\<close> returns as many slides as the text has new-slide marker
  lines outside fenced blocks, and it returns no slide exactly when there is no such line.
\<close>

theorem parse_length:
  "length (parse_outline text) = length (slide_marker_lines False (split_nl text)) \<and>
   (parse_outline text = [] \<longleftrightarrow> slide_marker_lines False (split_nl text) = [])"
proof -
  have "length (map title (parse_outline text)) =
          length (map marker_text (slide_marker_lines False (split_nl text)))"
    by (simp only: parse_outline_def parse_lines_def titles_finalize headings_of_foldl
          headings_of_init append_Nil)
  then have "length (parse_outline text) = length (slide_marker_lines False (split_nl text))"
    by simp
  then show ?thesis by (metis length_0_conv)
qed

theorem parse_length_witness:
  "length (parse_outline ''# A\<newline>```\<newline># B\<newline>```\<newline># C'') = 2"
proof -
  have h: "slide_marker_lines False (split_nl ''# A\<newline>```\<newline># B\<newline>```\<newline># C'')
             = [''# A'', ''# C'']"
    by code_simp
  have "length (parse_outline ''# A\<newline>```\<newline># B\<newline>```\<newline># C'') =
          length (slide_marker_lines False (split_nl ''# A\<newline>```\<newline># B\<newline>```\<newline># C''))"
    using parse_length [of "''# A\<newline>```\<newline># B\<newline>```\<newline># C''"] by (rule conjunct1)
  then show ?thesis unfolding h by simp
qed

text \<open>
  C7 (as stated): the headings of the slides are the trimmed texts of the new-slide marker
  lines, in order.  This fails when a marker line lies inside a fenced block: the text
  below has the marker texts A and B, and the only heading is A.
\<close>

theorem parse_headings_counterexample:
  "map marker_text (filter is_marker (split_nl ''# A\<newline>```\<newline># B'')) = [''A'', ''B''] \<and>
   map title (parse_outline ''# A\<newline>```\<newline># B'') = [''A'']"
  by code_simp

text \<open>
  C7 (amended): the headings of the slides returned by \<open>parse_outline\<close> are, in order, the
  trimmed texts of the new-slide marker lines that lie outside fenced blocks.
\<close>

theorem parse_headings:
  "map title (parse_outline text) = map marker_text (slide_marker_lines False (split_nl text))"
  by (simp add: parse_outline_def parse_lines_def titles_finalize headings_of_foldl headings_of_init)

theorem parse_headings_witness:
  "map title (parse_outline ''# One\<newline>text\<newline>#  Two \<newline>```\<newline># x\<newline>```'') = [''One'', ''Two'']"
proof -
  have h: "map marker_text
             (slide_marker_lines False (split_nl ''# One\<newline>text\<newline>#  Two \<newline>```\<newline># x\<newline>```''))
             = [''One'', ''Two'']"
    by code_simp
  show ?thesis
    unfolding parse_headings [of "''# One\<newline>text\<newline>#  Two \<newline>```\<newline># x\<newline>```''"] by (rule h)
qed

section \<open>Metadata lines\<close>

lemma lower_keys:
  "lower ''Title'' = ''title''" "lower ''Subtitle'' = ''subtitle''"
  "lower ''Author'' = ''author''" "lower ''Date'' = ''date''"
  by code_simp+

lemma recognised_line_class:
  assumes "recognised l"
  shows "\<not> is_fence l" "\<not> startswith l ''# ''" "\<not> startswith l ''## ''"
    "\<not> startswith (strip l) ''-''"
proof -
  from assms have colon: "CHR '':'' \<in> set l"
    and key: "strip (fst (split_colon l)) \<in> set [''Title'', ''Subtitle'', ''Author'', ''Date'']"
    by (simp_all add: recognised_def)
  have "\<exists>c r r'. dropWhile isspace l = c # r \<and> strip l = c # r' \<and> c \<in> set ''TSAD''"
  proof (cases l rule: strip_cases)
    case 1
    then show ?thesis using colon isspace_simps(2) by blast
  next
    case (2 c r)
    show ?thesis
    proof (cases "c = CHR '':''")
      case True
      then have "strip (fst (split_colon l)) = []" using 2(2) key_empty by blast
      then show ?thesis using key by simp
    next
      case False
      then obtain r' where "strip (fst (split_colon l)) = c # r'"
        using key_first_char[OF 2(2)] by blast
      then have "c \<in> set ''TSAD''" using key by auto
      then show ?thesis using 2 by blast
    qed
  qed
  then obtain c r r' where d: "dropWhile isspace l = c # r" and s: "strip l = c # r'"
    and c: "c \<in> set ''TSAD''" by blast
  show "\<not> is_fence l" using s c by (auto simp: is_fence_def startswith_Cons)
  show "\<not> startswith (strip l) ''-''" using s c by (auto simp: startswith_Cons)
  have "\<not> startswith l (CHR ''#'' # p)" for p
    using startswith_hash_strip[of l p] s c by auto
  then show "\<not> startswith l ''# ''" "\<not> startswith l ''## ''" by blast+
qed

text \<open>
  C2 (as stated): a metadata line whose key is one of the four keys, in whatever letter
  case, is stored.  The script compares the trimmed key with the four capitalised
  spellings, so the line \<open>title: Demo\<close>, whose lower-cased key is \<open>title\<close>, leaves
  the metadata of the title slide without a title.
\<close>

theorem recognised_key_stored_counterexample:
  "lower (strip (fst (split_colon ''title: Demo''))) = ''title'' \<and>
   map title (parse_outline ''# Title Slide\<newline>title: Demo'') = [''Title Slide''] \<and>
   metadata (hd (parse_outline ''# Title Slide\<newline>title: Demo'')) ''title'' = None"
  by code_simp

text \<open>
  C2 (amended): while a slide is under construction, a line outside a fenced block that
  holds a colon and whose trimmed key (the text before the first colon) is exactly
  \<open>Title\<close>, \<open>Subtitle\<close>, \<open>Author\<close> or \<open>Date\<close> stores the trimmed value in that
  slide's metadata under the lower-cased key, which is one of \<open>title\<close>, \<open>subtitle\<close>,
  \<open>author\<close>, \<open>date\<close>.
\<close>

theorem recognised_key_stored:
  assumes "current_slide st = Some s" "\<not> in_code_block st" "CHR '':'' \<in> set line"
    "strip (fst (split_colon line)) \<in> set [''Title'', ''Subtitle'', ''Author'', ''Date'']"
  shows "process_line st line =
           st\<lparr>current_slide := Some (s\<lparr>metadata := (metadata s)
              (lower (strip (fst (split_colon line))) \<mapsto> strip (snd (split_colon line)))\<rparr>)\<rparr> \<and>
         lower (strip (fst (split_colon line))) \<in> set [''title'', ''subtitle'', ''author'', ''date'']"
proof -
  have r: "recognised line" using assms(3,4) by (simp add: recognised_def)
  have "process_line st line =
           st\<lparr>current_slide := Some (s\<lparr>metadata := (metadata s)
              (lower (strip (fst (split_colon line))) \<mapsto> strip (snd (split_colon line)))\<rparr>)\<rparr>"
    using assms recognised_line_class[OF r] by (simp add: process_line_meta)
  moreover have "lower (strip (fst (split_colon line))) \<in> set [''title'', ''subtitle'', ''author'', ''date'']"
    using assms(4) lower_keys by auto
  ultimately show ?thesis by simp
qed

theorem recognised_key_stored_witness:
  "process_line
     \<lparr>slides = [],
      current_slide = Some \<lparr>slide_type = ''title'', title = ''Title Slide'', content = [],
                             metadata = Map.empty\<rparr>,
      in_code_block = False, code_lang = None\<rparr>
     '' Title : Demo '' =
     \<lparr>slides = [],
      current_slide = Some \<lparr>slide_type = ''title'', title = ''Title Slide'', content = [],
                             metadata = [''title'' \<mapsto> ''Demo'']\<rparr>,
      in_code_block = False, code_lang = None\<rparr>"
proof -
  have k: "strip (fst (split_colon '' Title : Demo '')) = ''Title''" by code_simp
  have v: "strip (snd (split_colon '' Title : Demo '')) = ''Demo''" by code_simp
  have l: "lower ''Title'' = ''title''" by code_simp
  have c: "CHR '':'' \<in> set '' Title : Demo ''" by simp
  have m: "strip (fst (split_colon '' Title : Demo '')) \<in> set [''Title'', ''Subtitle'', ''Author'', ''Date'']"
    unfolding k by simp
  have "process_line
     \<lparr>slides = [],
      current_slide = Some \<lparr>slide_type = ''title'', title = ''Title Slide'', content = [],
                             metadata = Map.empty\<rparr>,
      in_code_block = False, code_lang = None\<rparr>
     '' Title : Demo '' =
     \<lparr>slides = [],
      current_slide = Some \<lparr>slide_type = ''title'', title = ''Title Slide'', content = [],
                             metadata = Map.empty\<rparr>,
      in_code_block = False, code_lang = None\<rparr>
     \<lparr>current_slide := Some (\<lparr>slide_type = ''title'', title = ''Title Slide'', content = [],
                             metadata = Map.empty\<rparr>\<lparr>metadata := Map.empty
              (lower (strip (fst (split_colon '' Title : Demo ''))) \<mapsto> strip (snd (split_colon '' Title : Demo '')))\<rparr>)\<rparr>"
    using recognised_key_stored [OF _ _ c m, of _ "\<lparr>slide_type = ''title'', title = ''Title Slide'', content = [],
                             metadata = Map.empty\<rparr>"]
    by simp
  then show ?thesis unfolding k v l by simp
qed

text \<open>
  C9 (as stated): a line outside a fenced block that holds a colon, does not start with a
  bullet marker after trimming, and whose key is none of the four keys is ignored.  The
  heading branches come first: the sub-heading line below meets all three conditions and
  adds a fragment to the body.
\<close>

theorem unrecognised_key_ignored_counterexample:
  "\<not> is_fence ''## Note: x'' \<and> CHR '':'' \<in> set ''## Note: x'' \<and>
   \<not> startswith (strip ''## Note: x'') ''-'' \<and>
   lower (strip (fst (split_colon ''## Note: x''))) \<notin> set [''title'', ''subtitle'', ''author'', ''date''] \<and>
   map content (parse_outline ''# S\<newline>## Note: x'') = [[''<h2>Note: x</h2>'']]"
  by code_simp

text \<open>
  C9 (amended): outside a fenced block, a line that is no fence delimiter, starts with
  neither \<open>#\<close> and a space nor \<open>##\<close> and a space, holds a colon, does not start with a
  bullet marker after trimming, and whose trimmed key is none of \<open>Title\<close>, \<open>Subtitle\<close>,
  \<open>Author\<close>, \<open>Date\<close> leaves the parser state as it is: no metadata entry, no fragment,
  no error.
\<close>

theorem unrecognised_key_ignored:
  assumes "\<not> in_code_block st" "\<not> is_fence line" "\<not> startswith line ''# ''"
    "\<not> startswith line ''## ''" "CHR '':'' \<in> set line" "\<not> startswith (strip line) ''-''"
    "strip (fst (split_colon line)) \<notin> set [''Title'', ''Subtitle'', ''Author'', ''Date'']"
  shows "process_line st line = st"
  using assms by (cases "current_slide st") (simp_all add: process_line_meta)

theorem unrecognised_key_ignored_witness:
  "process_line
     \<lparr>slides = [],
      current_slide = Some \<lparr>slide_type = ''content'', title = ''S'',
                             content = [''<p>text</p>''], metadata = Map.empty\<rparr>,
      in_code_block = False, code_lang = None\<rparr>
     ''Note: remember this'' =
     \<lparr>slides = [],
      current_slide = Some \<lparr>slide_type = ''content'', title = ''S'',
                             content = [''<p>text</p>''], metadata = Map.empty\<rparr>,
      in_code_block = False, code_lang = None\<rparr>"
proof -
  have h: "\<not> is_fence ''Note: remember this''" "\<not> startswith ''Note: remember this'' ''# ''"
    "\<not> startswith ''Note: remember this'' ''## ''" "CHR '':'' \<in> set ''Note: remember this''"
    "\<not> startswith (strip ''Note: remember this'') ''-''"
    "strip (fst (split_colon ''Note: remember this'')) \<notin> set [''Title'', ''Subtitle'', ''Author'', ''Date'']"
    by code_simp+
  show ?thesis by (rule unrecognised_key_ignored [OF _ h]) simp
qed

lemma all_slides_append_content:
  "(\<forall>s\<in>all_slides (append_content f st). P (metadata s)) \<longleftrightarrow> (\<forall>s\<in>all_slides st. P (metadata s))"
  by (cases "current_slide st") (simp_all add: all_slides_def append_content_def)

lemma all_slides_update [simp]:
  "all_slides (st\<lparr>in_code_block := b\<rparr>) = all_slides st"
  "all_slides (st\<lparr>code_lang := c\<rparr>) = all_slides st"
  by (simp_all add: all_slides_def)

lemma metadata_step:
  assumes inv: "\<forall>s\<in>all_slides st. P (metadata s)"
    and empty: "P Map.empty"
    and store: "\<And>m. P m \<Longrightarrow> recognised l \<Longrightarrow>
                  P (m(lower (strip (fst (split_colon l))) \<mapsto> strip (snd (split_colon l))))"
  shows "\<forall>s\<in>all_slides (process_line st l). P (metadata s)"
proof (cases l st rule: line_classes)
  case fence_open
  then show ?thesis using inv
    by (simp add: process_line_fence_open all_slides_append_content del: append_content_proj)
next
  case fence_close
  have "all_slides (process_line st l) = all_slides (append_content ''</code></pre>'' (st\<lparr>in_code_block := False\<rparr>))"
    using fence_close by (simp add: process_line_fence_close)
  then show ?thesis
    using inv all_slides_append_content[where P = P and st = "st\<lparr>in_code_block := False\<rparr>"]
    by simp
next
  case code
  then show ?thesis using inv by (simp add: process_line_in_code all_slides_append_content)
next
  case marker
  then show ?thesis using inv empty
    by (auto simp: process_line_marker all_slides_def split: option.splits)
next
  case subheading
  then show ?thesis using inv by (simp add: process_line_subheading all_slides_append_content)
next
  case meta
  show ?thesis
  proof (cases "current_slide st")
    case None
    then show ?thesis using inv meta by (simp add: process_line_meta)
  next
    case (Some s)
    then have "P (metadata s)" using inv by (simp add: all_slides_def)
    then show ?thesis using inv meta Some store[of "metadata s"]
      by (auto simp: process_line_meta all_slides_def recognised_def)
  qed
next
  case bullet
  show ?thesis
  proof (cases "current_slide st")
    case None
    then show ?thesis using inv bullet by (simp add: process_line_bullet)
  next
    case (Some s)
    then show ?thesis using inv bullet
      by (simp add: process_line_bullet all_slides_append_content)
  qed
next
  case plain
  then show ?thesis using inv by (simp add: process_line_plain all_slides_append_content)
qed

lemma metadata_foldl:
  assumes "\<forall>s\<in>all_slides st. P (metadata s)" "P Map.empty"
    "\<And>m l. P m \<Longrightarrow> l \<in> set ls \<Longrightarrow> recognised l \<Longrightarrow>
             P (m(lower (strip (fst (split_colon l))) \<mapsto> strip (snd (split_colon l))))"
  shows "\<forall>s\<in>all_slides (foldl process_line st ls). P (metadata s)"
  using assms
proof (induction ls arbitrary: st)
  case Nil
  then show ?case by simp
next
  case (Cons l ls)
  have "\<forall>s\<in>all_slides (process_line st l). P (metadata s)"
    by (rule metadata_step) (use Cons.prems in simp_all)
  then show ?case using Cons.IH[of "process_line st l"] Cons.prems(2,3) by simp
qed

lemma metadata_finalize:
  "(\<forall>s\<in>set (finalize st). P (metadata s)) \<longleftrightarrow> (\<forall>s\<in>all_slides st. P (metadata s))"
  by (cases "current_slide st") (auto simp: finalize_def all_slides_def)

lemma metadata_parse:
  assumes "P Map.empty"
    "\<And>m l. P m \<Longrightarrow> l \<in> set (split_nl text) \<Longrightarrow> recognised l \<Longrightarrow>
             P (m(lower (strip (fst (split_colon l))) \<mapsto> strip (snd (split_colon l))))"
  shows "\<forall>s\<in>set (parse_outline text). P (metadata s)"
proof -
  have "\<forall>s\<in>all_slides init_state. P (metadata s)"
    by (simp add: all_slides_def init_state_def)
  then have "\<forall>s\<in>all_slides (foldl process_line init_state (split_nl text)). P (metadata s)"
    using assms by (rule metadata_foldl)
  then show ?thesis
    by (simp only: parse_outline_def parse_lines_def metadata_finalize)
qed

lemma metadata_other:
  assumes "\<not> is_fence l" "\<not> in_code_block st" "\<not> startswith l ''# ''"
  shows "slides (process_line st l) = slides st \<and>
         map_option metadata (current_slide (process_line st l)) =
           map_option (\<lambda>s. store_line (metadata s) l) (current_slide st)"
proof (cases l st rule: line_classes)
  case subheading
  then have "\<not> recognised l" using recognised_line_class(3) by blast
  then show ?thesis using subheading
    by (simp add: process_line_subheading store_line_def option.map_comp o_def)
next
  case meta
  then have r: "recognised l \<longleftrightarrow>
      strip (fst (split_colon l)) \<in> set [''Title'', ''Subtitle'', ''Author'', ''Date'']"
    by (simp add: recognised_def)
  show ?thesis unfolding process_line_meta[OF meta]
    by (cases "current_slide st") (simp_all add: store_line_def r)
next
  case bullet
  then have nr: "\<not> recognised l" using recognised_line_class(4) by blast
  show ?thesis unfolding process_line_bullet[OF bullet]
    by (cases "current_slide st") (simp_all add: store_line_def nr option.map_comp o_def)
next
  case plain
  then have "\<not> recognised l" by (simp add: recognised_def)
  then show ?thesis using plain
    by (simp add: process_line_plain store_line_def option.map_comp o_def)
qed (use assms in simp_all)

lemma metadata_finalize_list:
  "map metadata (finalize st) = map metadata (slides st) @ current_metadata st []"
  by (cases "current_slide st") (simp_all add: finalize_def current_metadata_def)

lemma metadata_blocks_foldl:
  "map metadata (finalize (foldl process_line st ls)) =
     map metadata (slides st) @
     current_metadata st (takeWhile (\<lambda>x. \<not> is_marker x) (outside_fences (in_code_block st) ls)) @
     map block_metadata (slide_blocks (outside_fences (in_code_block st) ls))"
proof (induction ls arbitrary: st)
  case Nil
  show ?case by (simp add: metadata_finalize_list)
next
  case (Cons l ls)
  show ?case
  proof (cases l st rule: line_classes)
    case fence_open
    then show ?thesis
      by (simp add: Cons.IH process_line_fence_open current_metadata_def option.map_comp o_def
            split: option.splits)
  next
    case fence_close
    then show ?thesis
      by (simp add: Cons.IH process_line_fence_close current_metadata_def option.map_comp o_def
            split: option.splits)
  next
    case code
    then show ?thesis
      by (simp add: Cons.IH process_line_in_code current_metadata_def option.map_comp o_def
            split: option.splits)
  next
    case marker
    then show ?thesis
      by (simp add: Cons.IH process_line_marker current_metadata_def is_marker_def
            block_metadata_def split: option.splits)
  next
    case subheading
    then have o: "\<not> is_fence l" "\<not> in_code_block st" "\<not> startswith l ''# ''" by simp_all
    show ?thesis using metadata_other[OF o] o process_line_other[OF o]
      by (cases "current_slide st"; cases "current_slide (process_line st l)")
         (simp_all add: Cons.IH current_metadata_def is_marker_def)
  next
    case meta
    then have o: "\<not> is_fence l" "\<not> in_code_block st" "\<not> startswith l ''# ''" by simp_all
    show ?thesis using metadata_other[OF o] o process_line_other[OF o]
      by (cases "current_slide st"; cases "current_slide (process_line st l)")
         (simp_all add: Cons.IH current_metadata_def is_marker_def)
  next
    case bullet
    then have o: "\<not> is_fence l" "\<not> in_code_block st" "\<not> startswith l ''# ''" by simp_all
    show ?thesis using metadata_other[OF o] o process_line_other[OF o]
      by (cases "current_slide st"; cases "current_slide (process_line st l)")
         (simp_all add: Cons.IH current_metadata_def is_marker_def)
  next
    case plain
    then have o: "\<not> is_fence l" "\<not> in_code_block st" "\<not> startswith l ''# ''" by simp_all
    show ?thesis using metadata_other[OF o] o process_line_other[OF o]
      by (cases "current_slide st"; cases "current_slide (process_line st l)")
         (simp_all add: Cons.IH current_metadata_def is_marker_def)
  qed
qed

lemma parse_metadata_blocks:
  "map metadata (parse_outline text) =
     map block_metadata (slide_blocks (outside_fences False (split_nl text)))"
  by (simp add: parse_outline_def parse_lines_def metadata_blocks_foldl current_metadata_def
        init_state_def)

lemma store_line_unrecognised:
  "\<forall>l\<in>set blk. \<not> recognised l \<Longrightarrow> foldl store_line m blk = m"
  by (induction blk arbitrary: m) (simp_all add: store_line_def)

text \<open>
  C4 (as stated): every Content slide has an empty metadata map.  The metadata branch
  stores on the slide under construction whatever its type: the slide below has the type
  \<open>content\<close> and the metadata entry \<open>title\<close>.
\<close>

theorem metadata_from_own_block_counterexample:
  "map slide_type (parse_outline ''# Slide 1\<newline>Title: x'') = [''content''] \<and>
   metadata (hd (parse_outline ''# Slide 1\<newline>Title: x'')) ''title'' = Some ''x''"
  by code_simp

text \<open>
  C4 (amended): the type of a slide plays no part; the metadata map of every slide returned
  by \<open>parse_outline\<close> is exactly what the recognised lines of the slide's own block store,
  starting from the empty map.  The block of a slide is the lines outside fenced blocks
  after its marker line, up to the next marker line; a recognised line holds a colon after
  a trimmed key that is exactly \<open>Title\<close>, \<open>Subtitle\<close>, \<open>Author\<close> or \<open>Date\<close>.  So the map
  is populated only if the slide's own block has a recognised line: every slide, of either
  type, whose block has none has an empty map.  The keys are always among \<open>title\<close>,
  \<open>subtitle\<close>, \<open>author\<close>, \<open>date\<close>, and a text without any recognised line gives empty maps
  only.
\<close>

theorem metadata_from_own_block:
  "map metadata (parse_outline text) =
     map block_metadata (slide_blocks (outside_fences False (split_nl text))) \<and>
   (\<forall>i<length (parse_outline text).
      (\<forall>l\<in>set (slide_blocks (outside_fences False (split_nl text)) ! i). \<not> recognised l) \<longrightarrow>
      metadata (parse_outline text ! i) = Map.empty) \<and>
   (\<forall>s\<in>set (parse_outline text). dom (metadata s) \<subseteq> {''title'', ''subtitle'', ''author'', ''date''}) \<and>
   ((\<forall>l\<in>set (split_nl text). \<not> recognised l) \<longrightarrow>
      (\<forall>s\<in>set (parse_outline text). metadata s = Map.empty))"
proof (intro conjI)
  let ?blocks = "slide_blocks (outside_fences False (split_nl text))"
  show eq: "map metadata (parse_outline text) = map block_metadata ?blocks"
    by (rule parse_metadata_blocks)
  show "\<forall>i<length (parse_outline text).
      (\<forall>l\<in>set (?blocks ! i). \<not> recognised l) \<longrightarrow> metadata (parse_outline text ! i) = Map.empty"
  proof (intro allI impI)
    fix i
    assume i: "i < length (parse_outline text)" and nr: "\<forall>l\<in>set (?blocks ! i). \<not> recognised l"
    have len: "length (parse_outline text) = length ?blocks"
      using eq by (metis length_map)
    have "metadata (parse_outline text ! i) = map metadata (parse_outline text) ! i"
      using i by simp
    also have "\<dots> = block_metadata (?blocks ! i)"
      using i len by (simp add: eq)
    also have "\<dots> = Map.empty"
      using nr by (simp add: block_metadata_def store_line_unrecognised)
    finally show "metadata (parse_outline text ! i) = Map.empty" .
  qed
  show "\<forall>s\<in>set (parse_outline text). dom (metadata s) \<subseteq> {''title'', ''subtitle'', ''author'', ''date''}"
  proof (rule metadata_parse)
    fix m :: "string \<rightharpoonup> string" and l
    assume "dom m \<subseteq> {''title'', ''subtitle'', ''author'', ''date''}" "recognised l"
    then show "dom (m(lower (strip (fst (split_colon l))) \<mapsto> strip (snd (split_colon l))))
                 \<subseteq> {''title'', ''subtitle'', ''author'', ''date''}"
      using lower_keys by (auto simp: recognised_def)
  qed simp
  show "(\<forall>l\<in>set (split_nl text). \<not> recognised l) \<longrightarrow>
      (\<forall>s\<in>set (parse_outline text). metadata s = Map.empty)"
  proof
    assume "\<forall>l\<in>set (split_nl text). \<not> recognised l"
    then show "\<forall>s\<in>set (parse_outline text). metadata s = Map.empty"
      by (intro metadata_parse[where P = "\<lambda>m. m = Map.empty"]) simp_all
  qed
qed

theorem metadata_from_own_block_witness:
  "map slide_type
     (parse_outline ''# Title Slide\<newline>Title: Demo\<newline>\<newline># Slide 1\<newline>## Topic\<newline>- One\<newline>- Two\<newline>'') =
     [''title'', ''content''] \<and>
   metadata (parse_outline ''# Title Slide\<newline>Title: Demo\<newline>\<newline># Slide 1\<newline>## Topic\<newline>- One\<newline>- Two\<newline>'' ! 0)
     = [''title'' \<mapsto> ''Demo''] \<and>
   metadata (parse_outline ''# Title Slide\<newline>Title: Demo\<newline>\<newline># Slide 1\<newline>## Topic\<newline>- One\<newline>- Two\<newline>'' ! 1)
     = Map.empty"
proof -
  let ?T = "''# Title Slide\<newline>Title: Demo\<newline>\<newline># Slide 1\<newline>## Topic\<newline>- One\<newline>- Two\<newline>''"
  note th = metadata_from_own_block [of ?T]
  have ty: "map slide_type (parse_outline ?T) = [''title'', ''content'']" by code_simp
  have len: "0 < length (parse_outline ?T)" "1 < length (parse_outline ?T)" by code_simp+
  have blocks: "slide_blocks (outside_fences False (split_nl ?T)) =
                  [[''Title: Demo'', ''''], [''## Topic'', ''- One'', ''- Two'', '''']]"
    by code_simp
  have r: "recognised ''Title: Demo''" "\<not> recognised ''''"
    "lower (strip (fst (split_colon ''Title: Demo''))) = ''title''"
    "strip (snd (split_colon ''Title: Demo'')) = ''Demo''"
    by code_simp+
  have nr: "\<forall>l\<in>set (slide_blocks (outside_fences False (split_nl ?T)) ! 1). \<not> recognised l"
    by code_simp
  have b0: "block_metadata [''Title: Demo'', ''''] = [''title'' \<mapsto> ''Demo'']"
    by (simp add: block_metadata_def store_line_def r)
  have "map metadata (parse_outline ?T) ! 0 = block_metadata [''Title: Demo'', '''']"
    using th [THEN conjunct1] by (simp only: blocks list.map nth_Cons_0)
  then have m0: "metadata (parse_outline ?T ! 0) = [''title'' \<mapsto> ''Demo'']"
    using len(1) by (simp only: nth_map b0)
  have m1: "metadata (parse_outline ?T ! 1) = Map.empty"
    using th [THEN conjunct2, THEN conjunct1] len(2) nr by blast
  show ?thesis using ty m0 m1 by (intro conjI)
qed

section \<open>Bullet lists\<close>

text \<open>
  C3: a blank line that follows open list content closes the list.  The script does not
  do so, against its own comment (close bullet list if next line is not a bullet): the
  closing branch appends only when the line is not blank.  After the slide marker and one
  bullet the body has an open list, and the blank line leaves the body as it is.  With the
  outline of the script's own documentation, the first content slide is committed with its
  list still open, since the marker line after the blank line does not close it either.
\<close>

theorem blank_line_leaves_list_open:
  "has_open_list [''<ul>'', ''  <li>a</li>''] \<and>
   map_option content (current_slide (foldl process_line init_state [''# S'', ''- a''])) =
     Some [''<ul>'', ''  <li>a</li>''] \<and>
   map_option content (current_slide (foldl process_line init_state [''# S'', ''- a'', ''''])) =
     Some [''<ul>'', ''  <li>a</li>''] \<and>
   map content (parse_outline ''# Slide 1\<newline>## Main Topic\<newline>- Point 1\<newline>- Point 2\<newline>- Point 3\<newline>\<newline># Slide 2\<newline>## Another Topic\<newline>Content goes here'') =
     [[''<h2>Main Topic</h2>'', ''<ul>'', ''  <li>Point 1</li>'', ''  <li>Point 2</li>'',
       ''  <li>Point 3</li>''],
      [''<h2>Another Topic</h2>'', ''<p>Content goes here</p>'']]"
  by code_simp

text \<open>
  What the script does at a blank line outside a fenced block: nothing.
\<close>

lemma blank_line_keeps_state:
  assumes "\<not> in_code_block st" "strip line = []"
  shows "process_line st line = st"
proof -
  have "\<not> startswith (strip line) ''-''" using assms(2) by (simp add: startswith_def)
  then show ?thesis
    using assms blank_not_fence[of line] blank_not_heading[of line] blank_no_colon[of line]
    by (simp add: process_line_plain)
qed

lemma example_lines:
  "\<not> is_fence ''- a''" "\<not> startswith ''- a'' ''# ''" "\<not> startswith ''- a'' ''## ''"
  "startswith (strip ''- a'') ''-''" "strip (drop 1 (strip ''- a'')) = ''a''"
  "\<not> is_fence ''- b''" "\<not> startswith ''- b'' ''# ''" "\<not> startswith ''- b'' ''## ''"
  "startswith (strip ''- b'') ''-''" "strip (drop 1 (strip ''- b'')) = ''b''"
  "\<not> is_fence ''plain''" "\<not> startswith ''plain'' ''# ''" "\<not> startswith ''plain'' ''## ''"
  "CHR '':'' \<notin> set ''plain''" "\<not> startswith (strip ''plain'') ''-''" "strip ''plain'' = ''plain''"
  by code_simp+

lemma example_items:
  "strip (drop (Suc 0) (strip ''- a'')) = ''a''" "strip (drop (Suc 0) (strip ''- b'')) = ''b''"
  using example_lines(5,10) by simp_all

lemma example_scans:
  "\<not> has_open_list []"
  "has_open_list [''<ul>'', ''  <li>a</li>'']"
  "has_open_list [''<ul>'', ''  <li>a</li>'', ''  <li>b</li>'']"
  by code_simp+

lemma li_startswith: "startswith (''  <li>'' @ t) ''  <li>''"
  by (simp add: startswith_def)

lemma example_body:
  assumes "current_slide st = Some s" "content s = []" "\<not> in_code_block st"
  shows "map_option content (current_slide (foldl process_line st [''- a'', ''- b'', ''plain''])) =
           Some [''<ul>'', ''  <li>a</li>'', ''  <li>b</li>'', ''</ul>'', ''<p>plain</p>'']"
proof -
  let ?s1 = "s\<lparr>content := [''<ul>'', ''  <li>a</li>'']\<rparr>"
  let ?s2 = "s\<lparr>content := [''<ul>'', ''  <li>a</li>'', ''  <li>b</li>'']\<rparr>"
  let ?s3 = "s\<lparr>content := [''<ul>'', ''  <li>a</li>'', ''  <li>b</li>'', ''</ul>'', ''<p>plain</p>'']\<rparr>"
  have 1: "process_line st ''- a'' = st\<lparr>current_slide := Some ?s1\<rparr>"
    using assms by (simp add: process_line_bullet example_lines example_items example_scans append_content_def)
  have 2: "process_line (st\<lparr>current_slide := Some ?s1\<rparr>) ''- b'' = st\<lparr>current_slide := Some ?s2\<rparr>"
    using assms by (simp add: process_line_bullet example_lines example_items example_scans append_content_def)
  have 3: "process_line (st\<lparr>current_slide := Some ?s2\<rparr>) ''plain'' = st\<lparr>current_slide := Some ?s3\<rparr>"
    using assms
      process_line_plain[of "''plain''" "st\<lparr>current_slide := Some ?s2\<rparr>",
        OF example_lines(11) _ example_lines(12-15)]
    by (simp add: example_lines(16) example_scans append_content_def)
  show ?thesis by (simp only: foldl_Cons foldl_Nil 1 2 3) simp
qed

lemma example_marker:
  "startswith ''# S'' ''# ''" "strip ''S'' = ''S''" "lower ''S'' \<noteq> ''title slide''"
  by code_simp+

lemma example_state:
  "foldl process_line init_state [''# S'', ''- a''] =
     \<lparr>slides = [],
      current_slide = Some \<lparr>slide_type = ''content'', title = ''S'',
                             content = [''<ul>'', ''  <li>a</li>''], metadata = Map.empty\<rparr>,
      in_code_block = False, code_lang = None\<rparr>"
proof -
  have 1: "process_line init_state ''# S'' =
     \<lparr>slides = [],
      current_slide = Some \<lparr>slide_type = ''content'', title = ''S'',
                             content = [], metadata = Map.empty\<rparr>,
      in_code_block = False, code_lang = None\<rparr>"
    by (simp add: process_line_marker example_marker init_state_def)
  have 2: "process_line \<lparr>slides = [],
      current_slide = Some \<lparr>slide_type = ''content'', title = ''S'',
                             content = [], metadata = Map.empty\<rparr>,
      in_code_block = False, code_lang = None\<rparr> ''- a'' =
     \<lparr>slides = [],
      current_slide = Some \<lparr>slide_type = ''content'', title = ''S'',
                             content = [''<ul>'', ''  <li>a</li>''], metadata = Map.empty\<rparr>,
      in_code_block = False, code_lang = None\<rparr>"
    by (simp add: process_line_bullet example_lines example_items example_scans append_content_def)
  show ?thesis by (simp only: foldl_Cons foldl_Nil 1 2)
qed

text \<open>
  C5: on a slide with an empty body, the lines \<open>- a\<close>, \<open>- b\<close>, \<open>plain\<close> give exactly the
  fragments list-open, two list items, list-close and the paragraph; and when the input
  ends with a slide under construction whose last fragment is a list item, the slide is
  committed with a list-close fragment appended.
\<close>

theorem list_bracketing:
  "(current_slide st = Some s \<and> content s = [] \<and> \<not> in_code_block st \<longrightarrow>
      map_option content (current_slide (foldl process_line st [''- a'', ''- b'', ''plain''])) =
        Some [''<ul>'', ''  <li>a</li>'', ''  <li>b</li>'', ''</ul>'', ''<p>plain</p>'']) \<and>
   (current_slide (foldl process_line init_state ls) = Some s' \<and> content s' \<noteq> [] \<and>
    last (content s') = ''  <li>'' @ t @ ''</li>'' \<longrightarrow>
      parse_lines ls =
        slides (foldl process_line init_state ls) @ [s'\<lparr>content := content s' @ [''</ul>'']\<rparr>])"
  using example_body[of st s] li_startswith[of "t @ ''</li>''"]
  by (auto simp: parse_lines_def finalize_def)

theorem list_bracketing_witness:
  "map_option content (current_slide (foldl process_line
     \<lparr>slides = [],
      current_slide = Some \<lparr>slide_type = ''content'', title = ''S'', content = [],
                             metadata = Map.empty\<rparr>,
      in_code_block = False, code_lang = None\<rparr> [''- a'', ''- b'', ''plain''])) =
     Some [''<ul>'', ''  <li>a</li>'', ''  <li>b</li>'', ''</ul>'', ''<p>plain</p>''] \<and>
   parse_lines [''# S'', ''- a''] =
     [\<lparr>slide_type = ''content'', title = ''S'',
       content = [''<ul>'', ''  <li>a</li>'', ''</ul>''], metadata = Map.empty\<rparr>]"
proof -
  let ?s0 = "\<lparr>slide_type = ''content'', title = ''S'', content = [], metadata = Map.empty\<rparr>"
  let ?st0 = "\<lparr>slides = [], current_slide = Some ?s0, in_code_block = False, code_lang = None\<rparr>"
  let ?s1 = "\<lparr>slide_type = ''content'', title = ''S'',
              content = [''<ul>'', ''  <li>a</li>''], metadata = Map.empty\<rparr>"
  note lb = list_bracketing [of ?st0 ?s0 "[''# S'', ''- a'']" ?s1 "''a''"]
  have p1: "current_slide ?st0 = Some ?s0 \<and> content ?s0 = [] \<and> \<not> in_code_block ?st0"
    by simp
  have p2: "current_slide (foldl process_line init_state [''# S'', ''- a'']) = Some ?s1 \<and>
            content ?s1 \<noteq> [] \<and> last (content ?s1) = ''  <li>'' @ ''a'' @ ''</li>''"
    unfolding example_state by simp
  have c1: "map_option content (current_slide (foldl process_line ?st0 [''- a'', ''- b'', ''plain''])) =
     Some [''<ul>'', ''  <li>a</li>'', ''  <li>b</li>'', ''</ul>'', ''<p>plain</p>'']"
    by (rule lb [THEN conjunct1, THEN mp, OF p1])
  have c2: "parse_lines [''# S'', ''- a''] =
        slides (foldl process_line init_state [''# S'', ''- a'']) @ [?s1\<lparr>content := content ?s1 @ [''</ul>'']\<rparr>]"
    by (rule lb [THEN conjunct2, THEN mp, OF p2])
  have c3: "parse_lines [''# S'', ''- a''] =
     [\<lparr>slide_type = ''content'', title = ''S'',
       content = [''<ul>'', ''  <li>a</li>'', ''</ul>''], metadata = Map.empty\<rparr>]"
    using c2 unfolding example_state by simp
  show ?thesis using c1 c3 by (rule conjI)
qed

section \<open>Fenced blocks\<close>

lemma foldl_in_code:
  assumes "current_slide st = Some s" "in_code_block st" "\<forall>l\<in>set ls. \<not> is_fence l"
  shows "foldl process_line st ls = st\<lparr>current_slide := Some (s\<lparr>content := content s @ ls\<rparr>)\<rparr>"
  using assms
proof (induction ls arbitrary: st s)
  case Nil
  then show ?case by simp
next
  case (Cons l ls)
  have step: "process_line st l = st\<lparr>current_slide := Some (s\<lparr>content := content s @ [l]\<rparr>)\<rparr>"
    using Cons.prems by (simp add: process_line_in_code append_content_def)
  show ?case
    using Cons.IH[of "st\<lparr>current_slide := Some (s\<lparr>content := content s @ [l]\<rparr>)\<rparr>"
        "s\<lparr>content := content s @ [l]\<rparr>"] Cons.prems
    by (simp add: step)
qed

text \<open>
  C6: while a slide is under construction and no block is open, an opening fence line,
  enclosed lines (none a fence delimiter) and a closing fence line append to the body the
  code-block-open fragment with the language tag of the opening line (\<open>text\<close> when the tag
  is empty), the enclosed lines as they are, and the code-block-close fragment.
\<close>

theorem fenced_block:
  assumes "current_slide st = Some s" "\<not> in_code_block st" "is_fence opening"
    "\<forall>l\<in>set enclosed. \<not> is_fence l" "is_fence closing"
  shows "foldl process_line st (opening # enclosed @ [closing]) =
           st\<lparr>current_slide := Some (s\<lparr>content := content s @
                  [''<pre><code class=\"'' @
                     (if strip (drop 3 (strip opening)) = [] then ''text''
                      else strip (drop 3 (strip opening))) @ ''\" data-trim>'']
                  @ enclosed @ [''</code></pre>'']\<rparr>),
              code_lang := None\<rparr>"
proof -
  let ?lang = "if strip (drop 3 (strip opening)) = [] then ''text'' else strip (drop 3 (strip opening))"
  let ?s1 = "s\<lparr>content := content s @ [''<pre><code class=\"'' @ ?lang @ ''\" data-trim>'']\<rparr>"
  let ?st1 = "st\<lparr>in_code_block := True, code_lang := Some ?lang, current_slide := Some ?s1\<rparr>"
  have 1: "process_line st opening = ?st1"
    using assms(1-3) by (simp add: process_line_fence_open append_content_def)
  have 2: "foldl process_line ?st1 enclosed = ?st1\<lparr>current_slide := Some (?s1\<lparr>content := content ?s1 @ enclosed\<rparr>)\<rparr>"
    by (rule foldl_in_code) (use assms(4) in simp_all)
  have 3: "process_line (?st1\<lparr>current_slide := Some (?s1\<lparr>content := content ?s1 @ enclosed\<rparr>)\<rparr>) closing
           = st\<lparr>current_slide := Some (s\<lparr>content := content s @
                  [''<pre><code class=\"'' @ ?lang @ ''\" data-trim>''] @ enclosed @ [''</code></pre>'']\<rparr>),
              code_lang := None\<rparr>"
    using assms(2,5) by (simp add: process_line_fence_close append_content_def)
  show ?thesis by (simp only: foldl_Cons foldl_append foldl_Nil 1 2 3)
qed

theorem fenced_block_witness:
  "foldl process_line
     \<lparr>slides = [],
      current_slide = Some \<lparr>slide_type = ''content'', title = ''S'', content = [],
                             metadata = Map.empty\<rparr>,
      in_code_block = False, code_lang = None\<rparr>
     (''```python'' # [''# comment'', ''- x: 1''] @ [''```'']) =
     \<lparr>slides = [],
      current_slide = Some \<lparr>slide_type = ''content'', title = ''S'',
                             content = [''<pre><code class=\"python\" data-trim>'', ''# comment'',
                                        ''- x: 1'', ''</code></pre>''],
                             metadata = Map.empty\<rparr>,
      in_code_block = False, code_lang = None\<rparr>"
proof -
  have f: "is_fence ''```python''" "is_fence ''```''" by code_simp+
  have n: "\<forall>l\<in>set [''# comment'', ''- x: 1'']. \<not> is_fence l" by code_simp
  have t: "strip (drop 3 (strip ''```python'')) = ''python''" by code_simp
  show ?thesis
    using fenced_block [OF _ _ f(1) n f(2),
        of "\<lparr>slides = [],
      current_slide = Some \<lparr>slide_type = ''content'', title = ''S'', content = [],
                             metadata = Map.empty\<rparr>,
      in_code_block = False, code_lang = None\<rparr>"
       "\<lparr>slide_type = ''content'', title = ''S'', content = [],
                             metadata = Map.empty\<rparr>"]
    unfolding t by simp
qed

lemma no_slide_other:
  assumes "current_slide st = None" "\<not> is_fence l" "in_code_block st \<or> \<not> startswith l ''# ''"
  shows "process_line st l = st"
proof (cases l st rule: line_classes)
  case code
  then show ?thesis using assms(1) by (simp add: process_line_in_code append_content_def)
next
  case subheading
  then show ?thesis using assms(1) by (simp add: process_line_subheading append_content_def)
next
  case meta
  then show ?thesis using assms(1) by (simp add: process_line_meta)
next
  case bullet
  then show ?thesis using assms(1) by (simp add: process_line_bullet)
next
  case plain
  then show ?thesis using assms(1) by (simp add: process_line_plain append_content_def)
qed (use assms in simp_all)

lemma no_slide_fence_open:
  assumes "is_fence l"
  shows "\<exists>lang. process_line init_state l = init_state\<lparr>in_code_block := True, code_lang := Some lang\<rparr>"
  using assms by (simp add: process_line_fence_open append_content_def init_state_def)

lemma no_slide_fence_close:
  assumes "is_fence l"
  shows "process_line (init_state\<lparr>in_code_block := True, code_lang := Some lang\<rparr>) l = init_state"
  using assms by (simp add: process_line_fence_close append_content_def init_state_def)

lemma no_slide_foldl:
  assumes "\<forall>l\<in>set pre. \<not> is_marker l"
  shows "(even (length (filter is_fence pre)) \<longrightarrow> foldl process_line init_state pre = init_state) \<and>
         (odd (length (filter is_fence pre)) \<longrightarrow>
            (\<exists>lang. foldl process_line init_state pre =
                      init_state\<lparr>in_code_block := True, code_lang := Some lang\<rparr>))"
  using assms
proof (induction pre rule: rev_induct)
  case Nil
  show ?case by simp
next
  case (snoc l pre)
  then have IH: "(even (length (filter is_fence pre)) \<longrightarrow> foldl process_line init_state pre = init_state) \<and>
         (odd (length (filter is_fence pre)) \<longrightarrow>
            (\<exists>lang. foldl process_line init_state pre =
                      init_state\<lparr>in_code_block := True, code_lang := Some lang\<rparr>))"
    and nm: "\<not> startswith l ''# ''" by (simp_all add: is_marker_def)
  show ?case
  proof (cases "is_fence l")
    case True
    show ?thesis
    proof (cases "even (length (filter is_fence pre))")
      case e: True
      then show ?thesis using IH True no_slide_fence_open[OF True] by simp
    next
      case o: False
      then obtain lang where "foldl process_line init_state pre =
                      init_state\<lparr>in_code_block := True, code_lang := Some lang\<rparr>"
        using IH by blast
      then show ?thesis using o True no_slide_fence_close[OF True] by simp
    qed
  next
    case False
    have keep: "current_slide st = None \<Longrightarrow> process_line st l = st" for st
      using no_slide_other[of st l] False nm by simp
    show ?thesis
    proof (cases "even (length (filter is_fence pre))")
      case e: True
      then show ?thesis using IH False keep[of init_state] by (simp add: init_state_def)
    next
      case o: False
      then obtain lang where "foldl process_line init_state pre =
                      init_state\<lparr>in_code_block := True, code_lang := Some lang\<rparr>"
        using IH by blast
      then show ?thesis
        using o False keep[of "init_state\<lparr>in_code_block := True, code_lang := Some lang\<rparr>"]
        by (simp add: init_state_def)
    qed
  qed
qed

text \<open>
  C10: lines before the first new-slide marker line leave no slide and no slide under
  construction; the fence delimiters among them still toggle the in-code-block state.
  With an even number of them the parse of the whole input is the parse of the rest; with
  an odd number a block is open, and the next line, whatever it is (so also a new-slide
  marker line), starts no slide.
\<close>

theorem lines_before_first_marker:
  assumes "\<forall>l\<in>set pre. \<not> is_marker l"
  shows "slides (foldl process_line init_state pre) = [] \<and>
         current_slide (foldl process_line init_state pre) = None \<and>
         in_code_block (foldl process_line init_state pre) = odd (length (filter is_fence pre)) \<and>
         (even (length (filter is_fence pre)) \<longrightarrow> parse_lines (pre @ rest) = parse_lines rest) \<and>
         (odd (length (filter is_fence pre)) \<longrightarrow>
            slides (foldl process_line init_state (pre @ [l])) = [] \<and>
            current_slide (foldl process_line init_state (pre @ [l])) = None)"
proof (cases "even (length (filter is_fence pre))")
  case True
  then have "foldl process_line init_state pre = init_state"
    using no_slide_foldl[OF assms] by blast
  then show ?thesis using True by (simp add: parse_lines_def init_state_def)
next
  case False
  then obtain lang where f: "foldl process_line init_state pre =
                      init_state\<lparr>in_code_block := True, code_lang := Some lang\<rparr>"
    using no_slide_foldl[OF assms] by blast
  let ?st = "init_state\<lparr>in_code_block := True, code_lang := Some lang\<rparr>"
  have "slides (process_line ?st l) = [] \<and> current_slide (process_line ?st l) = None"
  proof (cases "is_fence l")
    case True
    then show ?thesis using no_slide_fence_close[OF True, of lang] by (simp add: init_state_def)
  next
    case False
    then have "process_line ?st l = ?st"
      using no_slide_other[of ?st l] by (simp add: init_state_def)
    then show ?thesis by (simp add: init_state_def)
  qed
  then show ?thesis using False f by (simp add: init_state_def)
qed

theorem lines_before_first_marker_witness:
  "slides (foldl process_line init_state ([''intro'', ''```py'', ''x = 1''] @ [''# A''])) = [] \<and>
   current_slide (foldl process_line init_state ([''intro'', ''```py'', ''x = 1''] @ [''# A''])) = None \<and>
   parse_lines ([''## early'', ''- b'', ''Title: x'', ''text''] @ [''# A'']) = parse_lines [''# A'']"
proof -
  have h1: "\<forall>l\<in>set [''intro'', ''```py'', ''x = 1'']. \<not> is_marker l" by code_simp
  have o1: "odd (length (filter is_fence [''intro'', ''```py'', ''x = 1'']))" by code_simp
  have h2: "\<forall>l\<in>set [''## early'', ''- b'', ''Title: x'', ''text'']. \<not> is_marker l" by code_simp
  have e2: "even (length (filter is_fence [''## early'', ''- b'', ''Title: x'', ''text'']))" by code_simp
  show ?thesis
    using lines_before_first_marker [OF h1, where l = "''# A''"]
      lines_before_first_marker [OF h2, where rest = "[''# A'']"] o1 e2
    by blast
qed

section \<open>Rendering a title slide\<close>

text \<open>
  C8 (as stated): the sub-heading is emitted exactly when the metadata holds a subtitle,
  and likewise the author and date lines.  The renderer tests the values for being
  non-empty: the line \<open>Subtitle:\<close> stores an empty subtitle, and no sub-heading is
  emitted.
\<close>

theorem title_slide_markup_counterexample:
  "metadata (hd (parse_outline ''# Title Slide\<newline>Subtitle:'')) ''subtitle'' = Some [] \<and>
   map generate_slide_html (parse_outline ''# Title Slide\<newline>Subtitle:'') =
     [''      <section>\<newline>        <h1>Presentation Title</h1>\<newline>      </section>\<newline>'']"
  by code_simp

text \<open>
  C8 (amended): for a slide of type \<open>title\<close> the renderer emits the section with a heading
  from the metadata title (\<open>Presentation Title\<close> when absent), a sub-heading exactly when
  the subtitle is present and not empty, and a byline block holding the author line
  exactly when the author is present and not empty and the date line exactly when the date
  is present and not empty; the whole block is left out exactly when both are absent or
  empty.
\<close>

theorem title_slide_markup:
  assumes "slide_type s = ''title''"
  shows "generate_slide_html s =
           ''      <section>\<newline>'' @ title_heading s @ title_subheading s @ title_byline s
             @ ''      </section>\<newline>''"
  using assms
  by (simp add: generate_slide_html_def title_heading_def title_subheading_def title_byline_def
        author_line_def date_line_def given_def dict_get_def Let_def split: option.splits)

theorem title_slide_markup_witness:
  "generate_slide_html
     \<lparr>slide_type = ''title'', title = ''Title Slide'', content = [],
      metadata = [''title'' \<mapsto> ''Demo'', ''author'' \<mapsto> ''Me'', ''date'' \<mapsto> '''']\<rparr> =
   ''      <section>\<newline>        <h1>Demo</h1>\<newline>        <p>\<newline>          <small>Me</small><br>\<newline>        </p>\<newline>      </section>\<newline>''"
proof -
  have t: "slide_type \<lparr>slide_type = ''title'', title = ''Title Slide'', content = [],
      metadata = [''title'' \<mapsto> ''Demo'', ''author'' \<mapsto> ''Me'', ''date'' \<mapsto> '''']\<rparr> = ''title''"
    by simp
  have r: "''      <section>\<newline>'' @
      title_heading \<lparr>slide_type = ''title'', title = ''Title Slide'', content = [],
      metadata = [''title'' \<mapsto> ''Demo'', ''author'' \<mapsto> ''Me'', ''date'' \<mapsto> '''']\<rparr> @
      title_subheading \<lparr>slide_type = ''title'', title = ''Title Slide'', content = [],
      metadata = [''title'' \<mapsto> ''Demo'', ''author'' \<mapsto> ''Me'', ''date'' \<mapsto> '''']\<rparr> @
      title_byline \<lparr>slide_type = ''title'', title = ''Title Slide'', content = [],
      metadata = [''title'' \<mapsto> ''Demo'', ''author'' \<mapsto> ''Me'', ''date'' \<mapsto> '''']\<rparr> @
      ''      </section>\<newline>'' =
   ''      <section>\<newline>        <h1>Demo</h1>\<newline>        <p>\<newline>          <small>Me</small><br>\<newline>        </p>\<newline>      </section>\<newline>''"
    by code_simp
  show ?thesis unfolding title_slide_markup [OF t] by (rule r)
qed

end
